theory Spec2Isabelle
  imports Main "HOL-Library.Char_ord" "HOL-Library.List_Lexorder" "HOL-Library.Multiset"
    "HOL-Library.Sublist"
begin

text \<open>
  The data layer of the mod launcher (\<open>src/app.py\<close>): the table \<open>mods\<close> of an SQLite
  file, the functions \<open>db_init\<close>, \<open>db_fetch_all\<close>, \<open>db_distinct_categories\<close>,
  \<open>db_insert\<close>, \<open>db_update\<close>, \<open>db_delete\<close> and \<open>db_update_run\<close> that read and
  write it, and the part of \<open>MainWindow.add_mod\<close> that decides whether a mod is
  inserted. Each function takes the database as an argument and returns what it
  returns in Python together with the database it leaves; an SQL statement is modelled
  by what SQLite computes for it.
\<close>

section \<open>Text values\<close>

text \<open>
  A Python \<open>str\<close> and an SQLite TEXT value are sequences of code points. They are
  modelled as \<open>string\<close>, one \<open>char\<close> per code point, which covers the code points
  below 256. The order on \<open>string\<close> (lexicographic over the code points, a proper
  prefix first) is the order of SQLite's default BINARY collation.
\<close>

definition sqlite_lower_char :: "char \<Rightarrow> char" where
  \<comment> \<open>SQLite folds only the ASCII letters, in \<open>LOWER()\<close>, in \<open>LIKE\<close> and in \<open>COLLATE NOCASE\<close>.\<close>
  "sqlite_lower_char c =
     (let n = of_char c :: nat in if 65 \<le> n \<and> n \<le> 90 then char_of (n + 32) else c)"

definition sqlite_lower :: "string \<Rightarrow> string" where
  "sqlite_lower s = map sqlite_lower_char s"

definition py_lower_char :: "char \<Rightarrow> char" where
  \<comment> \<open>\<open>str.lower()\<close> below code point 256: A to Z, and the Latin-1 capitals
      U+00C0 to U+00DE without the multiplication sign U+00D7.\<close>
  "py_lower_char c =
     (let n = of_char c :: nat
      in if (65 \<le> n \<and> n \<le> 90) \<or> (192 \<le> n \<and> n \<le> 222 \<and> n \<noteq> 215)
         then char_of (n + 32) else c)"

definition py_lower :: "string \<Rightarrow> string" where
  "py_lower s = map py_lower_char s"

definition py_isspace :: "char \<Rightarrow> bool" where
  \<comment> \<open>the characters \<open>str.strip()\<close> removes: TAB to CR, FS to US, space, NEL, NBSP\<close>
  "py_isspace c =
     (let n = of_char c :: nat
      in (9 \<le> n \<and> n \<le> 13) \<or> (28 \<le> n \<and> n \<le> 32) \<or> n = 133 \<or> n = 160)"

definition py_strip :: "string \<Rightarrow> string" where
  "py_strip s = rev (dropWhile py_isspace (rev (dropWhile py_isspace s)))"


text \<open>
  \<open>subject LIKE pattern\<close>: \<open>%\<close> stands for any run of characters, \<open>_\<close> for any one
  character, every other character for itself up to the case of ASCII letters. The
  queries of the program use no ESCAPE clause.
\<close>

fun sqlite_like :: "string \<Rightarrow> string \<Rightarrow> bool" where
  "sqlite_like [] [] = True"
| "sqlite_like [] (c # cs) = False"
| "sqlite_like (p # ps) [] = (p = CHR ''%'' \<and> sqlite_like ps [])"
| "sqlite_like (p # ps) (c # cs) =
     (if p = CHR ''%'' then sqlite_like ps (c # cs) \<or> sqlite_like (p # ps) cs
      else (p = CHR ''_'' \<or> sqlite_lower_char p = sqlite_lower_char c) \<and> sqlite_like ps cs)"

section \<open>The table \<open>mods\<close>\<close>

text \<open>
  One row of the table once \<open>db_init\<close> has run: the ten columns, all NOT NULL. The
  column \<open>id\<close> is the rowid of the row.
\<close>

record mod_row =
  row_id :: int
  name :: string
  cover_path :: string
  bat_path :: string
  status :: string
  last_run :: int
  version :: string
  category :: string
  blend_path :: string
  work_path :: string

text \<open>
  The database file: the rows of \<open>mods\<close> and the counter that SQLite keeps in
  \<open>sqlite_sequence\<close> for an AUTOINCREMENT key (the largest rowid ever handed out).
\<close>

record store =
  rows :: "mod_row list"
  seq :: int

definition table_scan :: "store \<Rightarrow> mod_row list" where
  \<comment> \<open>a query without an index walks the table in rowid order\<close>
  "table_scan s = sort_key row_id (rows s)"

text \<open>
  The argument \<open>mod\<close> of \<open>db_insert\<close> and \<open>db_update\<close> is a dict from the nine field
  names to text (an integer for \<open>last_run\<close>); a key may be missing, and
  \<open>mod.get(key, default)\<close> reads it.
\<close>

record mod_dict =
  get_name :: "string option"
  get_cover_path :: "string option"
  get_bat_path :: "string option"
  get_status :: "string option"
  get_last_run :: "int option"
  get_version :: "string option"
  get_category :: "string option"
  get_blend_path :: "string option"
  get_work_path :: "string option"

definition dict_get :: "'a option \<Rightarrow> 'a \<Rightarrow> 'a" where
  "dict_get v d = (case v of None \<Rightarrow> d | Some x \<Rightarrow> x)"

section \<open>The database layer\<close>

subsection \<open>db_fetch_all\<close>

definition name_clause :: "string option \<Rightarrow> mod_row \<Rightarrow> bool" where
  \<comment> \<open>\<open>if name_filter:\<close> adds \<open>AND LOWER(name) LIKE '%' + name_filter.lower() + '%'\<close>\<close>
  "name_clause name_filter r =
     (case name_filter of
        None \<Rightarrow> True
      | Some f \<Rightarrow>
          if f \<noteq> [] then sqlite_like (''%'' @ py_lower f @ ''%'') (sqlite_lower (name r))
          else True)"

definition category_clause :: "string option \<Rightarrow> mod_row \<Rightarrow> bool" where
  \<comment> \<open>\<open>if category_filter and category_filter.lower() != "__all__":\<close> adds \<open>AND category = ?\<close>\<close>
  "category_clause category_filter r =
     (case category_filter of
        None \<Rightarrow> True
      | Some f \<Rightarrow>
          if f \<noteq> [] \<and> py_lower f \<noteq> ''__all__'' then category r = f
          else True)"

definition db_fetch_all :: "string option \<Rightarrow> string option \<Rightarrow> store \<Rightarrow> mod_row list" where
  \<comment> \<open>\<open>SELECT * FROM mods WHERE 1=1 ... ORDER BY name ASC\<close>; the sort keeps the scan
      order of rows with equal keys\<close>
  "db_fetch_all name_filter category_filter s =
     sort_key name
       (filter (\<lambda>r. name_clause name_filter r \<and> category_clause category_filter r)
          (table_scan s))"

subsection \<open>db_distinct_categories\<close>



subsection \<open>db_insert, db_update, db_delete, db_update_run\<close>

definition next_rowid :: "store \<Rightarrow> int" where
  \<comment> \<open>AUTOINCREMENT: one more than the largest rowid in the table (1 for an empty
      table), and more than every rowid handed out before\<close>
  "next_rowid s =
     max (if rows s = [] then 1 else Max (set (map row_id (rows s))) + 1) (seq s + 1)"

definition db_insert :: "mod_dict \<Rightarrow> store \<Rightarrow> int \<times> store" where
  "db_insert m s =
     (let new_id = next_rowid s;
          r = \<lparr> row_id = new_id,
                name = dict_get (get_name m) '''',
                cover_path = dict_get (get_cover_path m) '''',
                bat_path = dict_get (get_bat_path m) '''',
                status = dict_get (get_status m) ''Ready'',
                last_run = dict_get (get_last_run m) 0,
                version = py_strip (dict_get (get_version m) ''''),
                category = py_strip (dict_get (get_category m) ''''),
                blend_path = py_strip (dict_get (get_blend_path m) ''''),
                work_path = py_strip (dict_get (get_work_path m) '''') \<rparr>
      in (new_id, s\<lparr> rows := rows s @ [r], seq := new_id \<rparr>))"

definition db_update :: "int \<Rightarrow> mod_dict \<Rightarrow> store \<Rightarrow> store" where
  "db_update mod_id m s =
     s\<lparr> rows :=
          map (\<lambda>r. if row_id r = mod_id
                   then r\<lparr> name := dict_get (get_name m) '''',
                           cover_path := dict_get (get_cover_path m) '''',
                           bat_path := dict_get (get_bat_path m) '''',
                           status := dict_get (get_status m) ''Ready'',
                           last_run := dict_get (get_last_run m) 0,
                           version := py_strip (dict_get (get_version m) ''''),
                           category := py_strip (dict_get (get_category m) ''''),
                           blend_path := py_strip (dict_get (get_blend_path m) ''''),
                           work_path := py_strip (dict_get (get_work_path m) '''') \<rparr>
                   else r)
            (rows s) \<rparr>"

definition db_delete :: "int \<Rightarrow> store \<Rightarrow> store" where
  "db_delete mod_id s = s\<lparr> rows := filter (\<lambda>r. row_id r \<noteq> mod_id) (rows s) \<rparr>"

definition db_update_run :: "int \<Rightarrow> string \<Rightarrow> int \<Rightarrow> store \<Rightarrow> store" where
  "db_update_run mod_id new_status last_run_ts s =
     s\<lparr> rows :=
          map (\<lambda>r. if row_id r = mod_id
                   then r\<lparr> status := new_status, last_run := last_run_ts \<rparr>
                   else r)
            (rows s) \<rparr>"

subsection \<open>The orders of a listing\<close>

definition name_id_le :: "mod_row \<Rightarrow> mod_row \<Rightarrow> bool" where
  \<comment> \<open>by name under the BINARY collation, rows of one name by id\<close>
  "name_id_le a b \<longleftrightarrow> name a < name b \<or> (name a = name b \<and> row_id a \<le> row_id b)"

definition spec_nocase_name_id_le :: "mod_row \<Rightarrow> mod_row \<Rightarrow> bool" where
  \<comment> \<open>the order the specification words: by name without regard to case, then by id\<close>
  "spec_nocase_name_id_le a b \<longleftrightarrow>
     sqlite_lower (name a) < sqlite_lower (name b) \<or>
     (sqlite_lower (name a) = sqlite_lower (name b) \<and> row_id a \<le> row_id b)"

section \<open>Schema migration\<close>

text \<open>
  \<open>db_init\<close> runs on whatever database file it finds, so the table is modelled here
  with the columns it happens to have: the column names as \<open>PRAGMA table_info\<close> lists
  them, and every row a map from column name to value.
\<close>

datatype val = VNull | VInt int | VText string

record table =
  columns :: "string list"
  cells :: "(string \<rightharpoonup> val) list"

datatype sql_error = OperationalError

definition column_exists :: "table \<Rightarrow> string \<Rightarrow> bool" where
  \<comment> \<open>\<open>any(row[1] == col for row in cur.fetchall())\<close>: Python compares the names exactly\<close>
  "column_exists t col \<longleftrightarrow> col \<in> set (columns t)"

definition create_table_if_not_exists :: "table option \<Rightarrow> table" where
  "create_table_if_not_exists db =
     (case db of
        None \<Rightarrow> \<lparr> columns = [''id'', ''name'', ''cover_path'', ''bat_path'', ''status'', ''last_run''],
                  cells = [] \<rparr>
      | Some t \<Rightarrow> t)"

definition add_column :: "string \<Rightarrow> table \<Rightarrow> sql_error + table" where
  \<comment> \<open>\<open>ALTER TABLE mods ADD COLUMN col TEXT NOT NULL DEFAULT ''\<close>. SQLite compares column
      names without regard to the case of ASCII letters and refuses a duplicate; the
      new column comes last and reads as the default in every row there is.\<close>
  "add_column col t =
     (if sqlite_lower col \<in> set (map sqlite_lower (columns t)) then Inl OperationalError
      else Inr \<lparr> columns = columns t @ [col],
                 cells = map (\<lambda>r. r(col \<mapsto> VText '''')) (cells t) \<rparr>)"

definition migrate_column :: "string \<Rightarrow> table \<Rightarrow> sql_error + table" where
  \<comment> \<open>\<open>if not _column_exists(con, "mods", col): con.execute("ALTER TABLE ...")\<close>\<close>
  "migrate_column col t = (if \<not> column_exists t col then add_column col t else Inr t)"

definition db_init :: "table option \<Rightarrow> table \<times> sql_error option" where
  \<comment> \<open>The table as the call leaves it, and the exception if a statement raised one.
      Every statement of the schema takes effect as it runs, so the columns added
      before a failing statement stay.\<close>
  "db_init db =
     (let t0 = create_table_if_not_exists db in
      case migrate_column ''version'' t0 of
        Inl e \<Rightarrow> (t0, Some e)
      | Inr t1 \<Rightarrow>
          (case migrate_column ''category'' t1 of
             Inl e \<Rightarrow> (t1, Some e)
           | Inr t2 \<Rightarrow>
               (case migrate_column ''blend_path'' t2 of
                  Inl e \<Rightarrow> (t2, Some e)
                | Inr t3 \<Rightarrow>
                    (case migrate_column ''work_path'' t3 of
                       Inl e \<Rightarrow> (t3, Some e)
                     | Inr t4 \<Rightarrow> (t4, None)))))"

section \<open>Adding a mod from the window\<close>

text \<open>
  \<open>MainWindow.add_mod\<close> opens the editor dialog on an empty mod. What the user does
  there is the input of the model: the dialog is cancelled, or it is accepted with
  some text in each of its seven fields.
\<close>

record editor_form =
  name_edit :: string
  version_edit :: string
  category_combo :: string
  cover_edit :: string
  bat_edit :: string
  blend_edit :: string
  work_edit :: string

datatype dialog_result = Rejected | Accepted editor_form

datatype py_error = KeyError

definition new_mod :: mod_dict where
  \<comment> \<open>\<open>self.mod\<close> of a dialog opened without a mod\<close>
  "new_mod =
     \<lparr> get_name = Some '''', get_cover_path = Some '''', get_bat_path = Some '''',
       get_status = Some ''Ready'', get_last_run = Some 0, get_version = Some '''',
       get_category = Some '''', get_blend_path = Some '''', get_work_path = Some '''' \<rparr>"

definition get_value :: "mod_dict \<Rightarrow> editor_form \<Rightarrow> mod_dict" where
  "get_value self_mod f =
     \<lparr> get_name = Some (py_strip (name_edit f)),
       get_cover_path = Some (py_strip (cover_edit f)),
       get_bat_path = Some (py_strip (bat_edit f)),
       get_status = Some (dict_get (get_status self_mod) ''Ready''),
       get_last_run = Some (dict_get (get_last_run self_mod) 0),
       get_version = Some (py_strip (version_edit f)),
       get_category = Some (py_strip (category_combo f)),
       get_blend_path = Some (py_strip (blend_edit f)),
       get_work_path = Some (py_strip (work_edit f)) \<rparr>"

definition add_mod :: "dialog_result \<Rightarrow> store \<Rightarrow> py_error + store" where
  \<comment> \<open>\<open>if dlg.exec() == Accepted: v = dlg.get_value(); if v["name"]: db_insert(v)\<close>\<close>
  "add_mod dlg s =
     (case dlg of
        Rejected \<Rightarrow> Inr s
      | Accepted f \<Rightarrow>
          (let v = get_value new_mod f in
           case get_name v of
             None \<Rightarrow> Inl KeyError
           | Some n \<Rightarrow> if n \<noteq> [] then Inr (snd (db_insert v s)) else Inr s))"

section \<open>Reachable stores\<close>

definition no_outer_space :: "string \<Rightarrow> bool" where
  \<comment> \<open>the text neither starts nor ends with a whitespace character\<close>
  "no_outer_space t \<longleftrightarrow> t = [] \<or> (\<not> py_isspace (hd t) \<and> \<not> py_isspace (last t))"

definition stripped_row :: "mod_row \<Rightarrow> bool" where
  "stripped_row r \<longleftrightarrow>
     no_outer_space (version r) \<and> no_outer_space (category r) \<and>
     no_outer_space (blend_path r) \<and> no_outer_space (work_path r)"

definition backfilled_row :: "mod_row \<Rightarrow> bool" where
  \<comment> \<open>a row as the migration leaves it: the four newer columns hold their default\<close>
  "backfilled_row r \<longleftrightarrow>
     version r = [] \<and> category r = [] \<and> blend_path r = [] \<and> work_path r = []"

text \<open>
  The stores the program can be in: the store \<open>db_init\<close> hands over at a first start
  (no rows, or the rows of an older file with the four newer columns backfilled), and
  every store one of the four writing operations makes of a reachable one.
\<close>

inductive reachable :: "store \<Rightarrow> bool" where
  init: "list_all backfilled_row (rows s) \<Longrightarrow> reachable s"
| insert: "reachable s \<Longrightarrow> reachable (snd (db_insert m s))"
| update: "reachable s \<Longrightarrow> reachable (db_update mod_id m s)"
| delete: "reachable s \<Longrightarrow> reachable (db_delete mod_id s)"
| update_run: "reachable s \<Longrightarrow> reachable (db_update_run mod_id new_status ts s)"

section \<open>Example data\<close>

definition fresh_store :: store where
  "fresh_store = \<lparr> rows = [], seq = 0 \<rparr>"

definition named :: "string \<Rightarrow> string \<Rightarrow> mod_dict" where
  \<comment> \<open>the dict \<open>{"name": n, "category": c}\<close>\<close>
  "named n c =
     \<lparr> get_name = Some n, get_cover_path = None, get_bat_path = None, get_status = None,
       get_last_run = None, get_version = None, get_category = Some c,
       get_blend_path = None, get_work_path = None \<rparr>"

definition plain_row :: "int \<Rightarrow> string \<Rightarrow> string \<Rightarrow> mod_row" where
  \<comment> \<open>the row with the given id, name and category, every other column at its default\<close>
  "plain_row i n c =
     \<lparr> row_id = i, name = n, cover_path = '''', bat_path = '''', status = ''Ready'',
       last_run = 0, version = '''', category = c, blend_path = '''', work_path = '''' \<rparr>"

definition scenario_store :: store where
  \<comment> \<open>three mods created one after the other in an empty store\<close>
  "scenario_store =
     snd (db_insert (named ''Rig Setup'' ''Rigging'')
       (snd (db_insert (named ''Idle Loop'' ''Animation'')
         (snd (db_insert (named ''Jump Cycle'' ''Animation'') fresh_store)))))"

definition legacy_table :: table where
  \<comment> \<open>a table of the first schema, holding one mod that has been run\<close>
  "legacy_table =
     \<lparr> columns = [''id'', ''name'', ''cover_path'', ''bat_path'', ''status'', ''last_run''],
       cells = [[''id'' \<mapsto> VInt 1, ''name'' \<mapsto> VText ''Old Mod'',
                 ''cover_path'' \<mapsto> VText '''', ''bat_path'' \<mapsto> VText ''run.bat'',
                 ''status'' \<mapsto> VText ''Running'', ''last_run'' \<mapsto> VInt 1700000000]] \<rparr>"

definition blank_form :: editor_form where
  \<comment> \<open>a dialog filled in except for the name, which is two spaces\<close>
  "blank_form =
     \<lparr> name_edit = ''  '', version_edit = ''1.0'', category_combo = ''Rigging'',
       cover_edit = '''', bat_edit = ''run.bat'', blend_edit = '''', work_edit = '''' \<rparr>"

definition padded_store :: store where
  \<comment> \<open>a mod created with a padded category, then edited to a padded version and category\<close>
  "padded_store =
     db_update 1 ((named ''A'' ''  Rig  '')\<lparr> get_version := Some '' 2.0 '' \<rparr>)
       (snd (db_insert (named ''A'' '' Anim '') fresh_store))"



section \<open>Properties of the listing\<close>

lemma insort_key_two_keys:
  fixes f :: "'a \<Rightarrow> 'k::linorder" and g :: "'a \<Rightarrow> 'i::linorder"
  assumes "sorted_wrt (\<lambda>a b. f a < f b \<or> (f a = f b \<and> g a \<le> g b)) ys"
    and "\<forall>y\<in>set ys. g x \<le> g y"
  shows "sorted_wrt (\<lambda>a b. f a < f b \<or> (f a = f b \<and> g a \<le> g b)) (insort_key f x ys)"
  using assms
proof (induction ys)
  case Nil
  then show ?case by simp
next
  case (Cons y ys)
  show ?case
  proof (cases "f x \<le> f y")
    case True
    have "\<forall>z\<in>set ys. f y \<le> f z" using Cons.prems(1) by auto
    with True Cons.prems show ?thesis by (auto simp: le_less)
  next
    case False
    with Cons show ?thesis by (auto simp: set_insort_key)
  qed
qed

lemma sort_key_two_keys:
  fixes f :: "'a \<Rightarrow> 'k::linorder" and g :: "'a \<Rightarrow> 'i::linorder"
  shows "sorted (map g xs) \<Longrightarrow>
    sorted_wrt (\<lambda>a b. f a < f b \<or> (f a = f b \<and> g a \<le> g b)) (sort_key f xs)"
proof (induction xs)
  case Nil
  then show ?case by simp
next
  case (Cons x xs)
  then have "\<forall>y\<in>set (sort_key f xs). g x \<le> g y" by auto
  with Cons show ?case by (simp add: insort_key_two_keys)
qed

lemma sorted_table_scan: "sorted (map row_id (table_scan s))"
  by (simp add: table_scan_def)

text \<open>
  C1, as the specification words it, fails: the listing is not ordered by name without
  regard to case. A store with the mods "a" (id 1) and "B" (id 2) is listed as "B", "a".
\<close>

theorem C1_nocase_order_counterexample:
  "\<not> sorted_wrt spec_nocase_name_id_le
       (db_fetch_all None None \<lparr> rows = [plain_row 1 ''a'' '''', plain_row 2 ''B'' ''''], seq = 2 \<rparr>)"
  by code_simp

text \<open>
  C1 (amended): for every store and every combination of name filter and category
  filter, the listing of \<open>db_fetch_all\<close> is ordered by name ascending, the names compared
  code point by code point (so with regard to case), and rows of the same name are
  ordered by id ascending.
\<close>

theorem C1_listing_ordered_by_name_then_id:
  "sorted_wrt name_id_le (db_fetch_all name_filter category_filter s)"
proof -
  have "sorted (map row_id
          (filter (\<lambda>r. name_clause name_filter r \<and> category_clause category_filter r)
             (table_scan s)))"
    using sorted_table_scan by (simp add: sorted_filter)
  then show ?thesis
    unfolding db_fetch_all_def name_id_le_def by (rule sort_key_two_keys)
qed

subsection \<open>The name filter\<close>

lemma like_percent_only: "sqlite_like ''%'' s"
  by (induction s) auto

lemma like_literal_percent:
  "CHR ''%'' \<notin> set ps \<Longrightarrow> CHR ''_'' \<notin> set ps \<Longrightarrow>
   sqlite_like (ps @ ''%'') s \<longleftrightarrow> prefix (sqlite_lower ps) (sqlite_lower s)"
proof (induction ps arbitrary: s)
  case Nil
  then show ?case using like_percent_only by (simp add: sqlite_lower_def)
next
  case (Cons p ps)
  then show ?case by (cases s) (auto simp: sqlite_lower_def)
qed

lemma like_percent_first:
  "sqlite_like (CHR ''%'' # q) s \<longleftrightarrow> (\<exists>t. suffix t s \<and> sqlite_like q t)"
proof (induction s)
  case Nil
  then show ?case by simp
next
  case (Cons c cs)
  then show ?case by (auto simp: suffix_Cons)
qed

text \<open>
  A pattern \<open>%text%\<close> whose text holds no wildcard of its own matches the subjects
  that contain the text, up to the case of ASCII letters.
\<close>

lemma like_substring:
  assumes "CHR ''%'' \<notin> set ps" "CHR ''_'' \<notin> set ps"
  shows "sqlite_like (''%'' @ ps @ ''%'') s \<longleftrightarrow> sublist (sqlite_lower ps) (sqlite_lower s)"
proof
  assume "sqlite_like (''%'' @ ps @ ''%'') s"
  then obtain t where t: "suffix t s" "sqlite_like (ps @ ''%'') t"
    using like_percent_first[of "ps @ ''%''" s] by auto
  then have "prefix (sqlite_lower ps) (sqlite_lower t)"
    using assms like_literal_percent by blast
  moreover have "suffix (sqlite_lower t) (sqlite_lower s)"
    using t(1) by (simp add: sqlite_lower_def map_mono_suffix)
  ultimately show "sublist (sqlite_lower ps) (sqlite_lower s)"
    using sublist_altdef' by blast
next
  assume "sublist (sqlite_lower ps) (sqlite_lower s)"
  then obtain u where u: "suffix u (sqlite_lower s)" "prefix (sqlite_lower ps) u"
    using sublist_altdef' by blast
  from u(1) obtain t where t: "suffix t s" "u = sqlite_lower t"
    unfolding sqlite_lower_def using suffix_map_rightE by blast
  with u(2) assms have "sqlite_like (ps @ ''%'') t"
    using like_literal_percent by blast
  with t(1) show "sqlite_like (''%'' @ ps @ ''%'') s"
    using like_percent_first[of "ps @ ''%''" s] by auto
qed

lemma py_lower_char_wildcard:
  "py_lower_char c = CHR ''%'' \<longleftrightarrow> c = CHR ''%''"
  "py_lower_char c = CHR ''_'' \<longleftrightarrow> c = CHR ''_''"
  by (auto simp: py_lower_char_def Let_def char_of_eq_iff take_bit_eq_mod)

lemma py_lower_char_wildcard_sym:
  "CHR ''%'' = py_lower_char c \<longleftrightarrow> c = CHR ''%''"
  "CHR ''_'' = py_lower_char c \<longleftrightarrow> c = CHR ''_''"
  using py_lower_char_wildcard[of c] by auto

lemma py_lower_wildcard_free:
  "CHR ''%'' \<notin> set (py_lower f) \<longleftrightarrow> CHR ''%'' \<notin> set f"
  "CHR ''_'' \<notin> set (py_lower f) \<longleftrightarrow> CHR ''_'' \<notin> set f"
  by (induction f) (auto simp: py_lower_def py_lower_char_wildcard_sym)

lemma sqlite_lower_char_idem: "sqlite_lower_char (sqlite_lower_char c) = sqlite_lower_char c"
  by (auto simp: sqlite_lower_char_def Let_def)

lemma sqlite_lower_idem: "sqlite_lower (sqlite_lower s) = sqlite_lower s"
  by (simp add: sqlite_lower_def sqlite_lower_char_idem)

text \<open>No name filter, or an empty one, lets every row pass.\<close>

lemma name_clause_absent: "name_clause None r" "name_clause (Some []) r"
  by (simp_all add: name_clause_def)

text \<open>
  A filter without \<open>%\<close> and \<open>_\<close> selects the rows whose name contains it, both
  folded to lower case.
\<close>

lemma name_clause_substring:
  assumes "f \<noteq> []" "CHR ''%'' \<notin> set f" "CHR ''_'' \<notin> set f"
  shows "name_clause (Some f) r \<longleftrightarrow>
         sublist (sqlite_lower (py_lower f)) (sqlite_lower (name r))"
  using assms like_substring[of "py_lower f" "sqlite_lower (name r)"]
  by (simp add: name_clause_def py_lower_wildcard_free sqlite_lower_idem)

text \<open>
  The mod "Dragon Pose" is found by the filters "dragon", "DRAGON" and "agon po", and
  not by "dragons".
\<close>

lemma name_filter_dragon_pose:
  "name_clause (Some ''dragon'') (plain_row 1 ''Dragon Pose'' '''')"
  "name_clause (Some ''DRAGON'') (plain_row 1 ''Dragon Pose'' '''')"
  "name_clause (Some ''agon po'') (plain_row 1 ''Dragon Pose'' '''')"
  "\<not> name_clause (Some ''dragons'') (plain_row 1 ''Dragon Pose'' '''')"
  by code_simp+

text \<open>
  C2: a record passes the name filter exactly when the filter is a substring of its
  name, case aside. The code departs from this where the filter holds a character that
  \<open>LIKE\<close> reads as a wildcard: the filter "_" is not a substring of the name "abc",
  and \<open>db_fetch_all\<close> lists the mod all the same.
\<close>

theorem C2_underscore_filter_lists_abc:
  "\<not> sublist (py_lower ''_'') (py_lower ''abc'') \<and>
   db_fetch_all (Some ''_'') None \<lparr> rows = [plain_row 1 ''abc'' ''''], seq = 1 \<rparr>
     = [plain_row 1 ''abc'' '''']"
  by code_simp

subsection \<open>The category filter\<close>

lemma category_clause_off:
  "category_clause None r" "category_clause (Some []) r"
  "py_lower f = ''__all__'' \<Longrightarrow> category_clause (Some f) r"
  by (simp_all add: category_clause_def)

lemma category_clause_on:
  "f \<noteq> [] \<Longrightarrow> py_lower f \<noteq> ''__all__'' \<Longrightarrow>
   category_clause (Some f) r \<longleftrightarrow> category r = f"
  by (simp add: category_clause_def)

lemma fetch_all_category_off:
  "(\<And>r. category_clause cf r) \<Longrightarrow> db_fetch_all nf cf s = db_fetch_all nf None s"
  by (simp add: db_fetch_all_def category_clause_off(1))

lemma fetch_all_category_filter:
  "db_fetch_all nf cf s = filter (category_clause cf) (db_fetch_all nf None s)"
  by (simp add: db_fetch_all_def filter_sort category_clause_off(1) conj_commute)

text \<open>
  C3, as the specification words it, fails: the filter "__ALL__" is not the sentinel
  "__all__", and still the listing holds a mod whose category is not "__ALL__"; the
  same mod is listed under the empty filter, which is not its category either.
\<close>

theorem C3_upper_case_sentinel_counterexample:
  "''__ALL__'' \<noteq> ''__all__'' \<and>
   plain_row 3 ''Rig Setup'' ''Rigging''
     \<in> set (db_fetch_all None (Some ''__ALL__'') scenario_store) \<and>
   category (plain_row 3 ''Rig Setup'' ''Rigging'') \<noteq> ''__ALL__'' \<and>
   plain_row 3 ''Rig Setup'' ''Rigging''
     \<in> set (db_fetch_all None (Some '''') scenario_store) \<and>
   category (plain_row 3 ''Rig Setup'' ''Rigging'') \<noteq> ''''"
  by code_simp

text \<open>
  C3 (amended): for every store, a category filter that is absent, empty, or equal to
  the sentinel "__all__" once lowered (so in any letter case) gives the listing that no
  category filter gives; every other category filter keeps, of that listing, exactly
  the records whose stored category equals the filter character for character; and a
  record is listed under both filters exactly when it is listed under each of them
  alone.
\<close>

theorem C3_category_filter:
  "db_fetch_all nf (Some '''') s = db_fetch_all nf None s \<and>
   (py_lower f = ''__all__'' \<longrightarrow> db_fetch_all nf (Some f) s = db_fetch_all nf None s) \<and>
   (f \<noteq> [] \<and> py_lower f \<noteq> ''__all__'' \<longrightarrow>
      db_fetch_all nf (Some f) s = filter (\<lambda>r. category r = f) (db_fetch_all nf None s)) \<and>
   set (db_fetch_all nf cf s) = set (db_fetch_all nf None s) \<inter> set (db_fetch_all None cf s)"
proof (intro conjI impI)
  show "db_fetch_all nf (Some '''') s = db_fetch_all nf None s"
    by (rule fetch_all_category_off) (rule category_clause_off(2))
next
  assume "py_lower f = ''__all__''"
  then show "db_fetch_all nf (Some f) s = db_fetch_all nf None s"
    by (intro fetch_all_category_off category_clause_off(3))
next
  assume "f \<noteq> [] \<and> py_lower f \<noteq> ''__all__''"
  then have "category_clause (Some f) = (\<lambda>r. category r = f)"
    by (auto simp: category_clause_on)
  then show "db_fetch_all nf (Some f) s = filter (\<lambda>r. category r = f) (db_fetch_all nf None s)"
    using fetch_all_category_filter[of nf "Some f" s] by simp
next
  show "set (db_fetch_all nf cf s) = set (db_fetch_all nf None s) \<inter> set (db_fetch_all None cf s)"
    by (auto simp: db_fetch_all_def category_clause_off(1) name_clause_def)
qed

text \<open>
  The three mods of \<open>scenario_store\<close>: the filter "__ALL__" changes nothing, the filter
  "Animation" lists "Idle Loop" and "Jump Cycle", in that order.
\<close>

theorem C3_category_filter_witness:
  "py_lower ''__ALL__'' = ''__all__'' \<and>
   db_fetch_all None (Some ''__ALL__'') scenario_store = db_fetch_all None None scenario_store \<and>
   ''Animation'' \<noteq> [] \<and> py_lower ''Animation'' \<noteq> ''__all__'' \<and>
   db_fetch_all None (Some ''Animation'') scenario_store =
     filter (\<lambda>r. category r = ''Animation'') (db_fetch_all None None scenario_store) \<and>
   map name (db_fetch_all None (Some ''Animation'') scenario_store)
     = [''Idle Loop'', ''Jump Cycle'']"
proof -
  have h1: "py_lower ''__ALL__'' = ''__all__''" by code_simp
  have h2: "''Animation'' \<noteq> [] \<and> py_lower ''Animation'' \<noteq> ''__all__''" by code_simp
  have h3: "map name (db_fetch_all None (Some ''Animation'') scenario_store)
              = [''Idle Loop'', ''Jump Cycle'']"
    by code_simp
  from C3_category_filter[of None scenario_store "''__ALL__''"] h1
  have c1: "db_fetch_all None (Some ''__ALL__'') scenario_store
              = db_fetch_all None None scenario_store"
    by blast
  from C3_category_filter[of None scenario_store "''Animation''"] h2
  have c2: "db_fetch_all None (Some ''Animation'') scenario_store =
     filter (\<lambda>r. category r = ''Animation'') (db_fetch_all None None scenario_store)"
    by blast
  show ?thesis using h1 h2 h3 c1 c2 by blast
qed

section \<open>Properties of the writing operations\<close>

subsection \<open>Stripped text\<close>

lemma last_dropWhile_rev:
  assumes "dropWhile P (rev u) \<noteq> []" and "u \<noteq> [] \<Longrightarrow> \<not> P (hd u)"
  shows "\<not> P (last (dropWhile P (rev u)))"
proof -
  from assms(1) have u: "u \<noteq> []" by (cases u) simp_all
  obtain ws where "rev u = ws @ dropWhile P (rev u)"
    by (metis takeWhile_dropWhile_id)
  with assms(1) have "last (dropWhile P (rev u)) = last (rev u)" by (metis last_appendR)
  also have "\<dots> = hd u" using u by (simp add: last_rev)
  finally show ?thesis using u assms(2) by simp
qed

lemma no_outer_space_py_strip: "no_outer_space (py_strip t)"
proof (cases "py_strip t = []")
  case True
  then show ?thesis by (simp add: no_outer_space_def)
next
  case False
  let ?v = "dropWhile py_isspace (rev (dropWhile py_isspace t))"
  from False have v: "?v \<noteq> []" by (simp add: py_strip_def)
  then have "\<not> py_isspace (hd ?v)" by (rule hd_dropWhile)
  moreover have "\<not> py_isspace (last ?v)"
    using v by (rule last_dropWhile_rev) (rule hd_dropWhile)
  ultimately show ?thesis using v
    by (simp add: no_outer_space_def py_strip_def hd_rev last_rev)
qed






lemma stripped_row_backfilled: "backfilled_row r \<Longrightarrow> stripped_row r"
  by (simp add: backfilled_row_def stripped_row_def no_outer_space_def)

lemma reachable_stripped: "reachable s \<Longrightarrow> list_all stripped_row (rows s)"
proof (induction rule: reachable.induct)
  case (init s)
  then show ?case by (auto simp: list_all_iff stripped_row_backfilled)
next
  case (insert s m)
  then show ?case
    by (simp add: db_insert_def Let_def stripped_row_def no_outer_space_py_strip)
next
  case (update s mod_id m)
  then show ?case
    by (auto simp: db_update_def list_all_iff stripped_row_def no_outer_space_py_strip)
next
  case (delete s mod_id)
  then show ?case by (auto simp: db_delete_def list_all_iff)
next
  case (update_run s mod_id new_status ts)
  then show ?case by (auto simp: db_update_run_def list_all_iff stripped_row_def)
qed

lemma reachable_fresh: "reachable fresh_store"
  by (rule reachable.init) (simp add: fresh_store_def)


subsection \<open>db_distinct_categories\<close>


lemma mset_table_scan: "mset (table_scan s) = mset (rows s)"
  by (simp add: table_scan_def)










subsection \<open>db_insert\<close>

lemma mset_fetch_all_unfiltered: "mset (db_fetch_all None None s) = mset (rows s)"
  by (simp add: db_fetch_all_def name_clause_def category_clause_def mset_table_scan)

lemma next_rowid_above: "r \<in> set (rows s) \<Longrightarrow> row_id r < next_rowid s"
proof -
  assume r: "r \<in> set (rows s)"
  then have "rows s \<noteq> []" by auto
  moreover have "row_id r \<le> Max (set (map row_id (rows s)))"
    using r by (intro Max_ge) auto
  ultimately show ?thesis by (simp add: next_rowid_def)
qed

lemma next_rowid_fresh: "next_rowid s \<notin> row_id ` set (rows s)"
  using next_rowid_above by fastforce

lemma fst_db_insert: "fst (db_insert m s) = next_rowid s"
  by (simp add: db_insert_def Let_def)

lemma rows_db_insert:
  "rows (snd (db_insert m s)) = rows s @
     [\<lparr> row_id = fst (db_insert m s),
        name = dict_get (get_name m) '''',
        cover_path = dict_get (get_cover_path m) '''',
        bat_path = dict_get (get_bat_path m) '''',
        status = dict_get (get_status m) ''Ready'',
        last_run = dict_get (get_last_run m) 0,
        version = py_strip (dict_get (get_version m) ''''),
        category = py_strip (dict_get (get_category m) ''''),
        blend_path = py_strip (dict_get (get_blend_path m) ''''),
        work_path = py_strip (dict_get (get_work_path m) '''') \<rparr>]"
  by (simp add: db_insert_def Let_def)

text \<open>
  C5, as the specification words it, fails: a mod created with the version " 1.0 " is
  listed with the version "1.0".
\<close>

theorem C5_stripped_version_counterexample:
  "map version (db_fetch_all None None
      (snd (db_insert ((named ''A'' '''')\<lparr> get_version := Some '' 1.0 '' \<rparr>) fresh_store)))
     = [''1.0'']
   \<and> ''1.0'' \<noteq> '' 1.0 ''"
  by code_simp

text \<open>
  C5 (amended): for every dict of fields and every store, \<open>db_insert\<close> followed by a
  listing without filters lists the records listed before and exactly one more. The new
  record has the returned id, which no record had before; its name, cover_path,
  bat_path, status and last_run are the supplied values, its version, category,
  blend_path and work_path are the supplied values with the whitespace at both ends
  removed; a field that is not supplied is "Ready" for status, 0 for last_run and the
  empty text for the others.
\<close>

theorem C5_insert_then_list:
  "fst (db_insert m s) \<notin> row_id ` set (rows s) \<and>
   mset (db_fetch_all None None (snd (db_insert m s))) =
     add_mset
       \<lparr> row_id = fst (db_insert m s),
         name = dict_get (get_name m) '''',
         cover_path = dict_get (get_cover_path m) '''',
         bat_path = dict_get (get_bat_path m) '''',
         status = dict_get (get_status m) ''Ready'',
         last_run = dict_get (get_last_run m) 0,
         version = py_strip (dict_get (get_version m) ''''),
         category = py_strip (dict_get (get_category m) ''''),
         blend_path = py_strip (dict_get (get_blend_path m) ''''),
         work_path = py_strip (dict_get (get_work_path m) '''') \<rparr>
       (mset (db_fetch_all None None s))"
proof
  show "fst (db_insert m s) \<notin> row_id ` set (rows s)"
    unfolding fst_db_insert by (rule next_rowid_fresh)
next
  show "mset (db_fetch_all None None (snd (db_insert m s))) =
     add_mset
       \<lparr> row_id = fst (db_insert m s),
         name = dict_get (get_name m) '''',
         cover_path = dict_get (get_cover_path m) '''',
         bat_path = dict_get (get_bat_path m) '''',
         status = dict_get (get_status m) ''Ready'',
         last_run = dict_get (get_last_run m) 0,
         version = py_strip (dict_get (get_version m) ''''),
         category = py_strip (dict_get (get_category m) ''''),
         blend_path = py_strip (dict_get (get_blend_path m) ''''),
         work_path = py_strip (dict_get (get_work_path m) '''') \<rparr>
       (mset (db_fetch_all None None s))"
    unfolding mset_fetch_all_unfiltered rows_db_insert by simp
qed

subsection \<open>db_update_run\<close>

lemma insort_key_map_inv:
  "(\<And>x. f (g x) = f x) \<Longrightarrow> insort_key f (g x) (map g ys) = map g (insort_key f x ys)"
  by (induction ys) simp_all

lemma sort_key_map_inv:
  "(\<And>x. f (g x) = f x) \<Longrightarrow> sort_key f (map g xs) = map g (sort_key f xs)"
  by (induction xs) (simp_all add: insort_key_map_inv)

lemma filter_map_inv:
  "(\<And>x. P (g x) = P x) \<Longrightarrow> filter P (map g xs) = map g (filter P xs)"
  by (induction xs) simp_all

text \<open>
  A change of the rows that leaves id, name and category alone shows in a listing as
  the same change of the listed records.
\<close>

lemma fetch_all_map_inv:
  assumes "\<And>r. row_id (g r) = row_id r" "\<And>r. name (g r) = name r"
    "\<And>r. category (g r) = category r"
  shows "db_fetch_all nf cf (s\<lparr> rows := map g (rows s) \<rparr>) = map g (db_fetch_all nf cf s)"
proof -
  have 1: "table_scan (s\<lparr> rows := map g (rows s) \<rparr>) = map g (table_scan s)"
    by (simp add: assms(1) table_scan_def sort_key_map_inv)
  have 2: "(name_clause nf (g r) \<and> category_clause cf (g r)) =
           (name_clause nf r \<and> category_clause cf r)" for r
    by (simp add: assms(2,3) name_clause_def category_clause_def split: option.splits)
  show ?thesis
    unfolding db_fetch_all_def 1
    by (simp add: 2 assms(2) filter_map_inv sort_key_map_inv)
qed

text \<open>
  C6: for every store, id, status and timestamp, and under every pair of filters, the
  listing fetched after \<open>db_update_run\<close> is the listing fetched before it, record for
  record and in the same order, except that the records with the given id carry the
  new status and last_run. Every other field of those records and every other record is
  as it was.
\<close>

theorem C6_update_run_frame:
  "db_fetch_all nf cf (db_update_run mod_id new_status ts s) =
     map (\<lambda>r. if row_id r = mod_id then r\<lparr> status := new_status, last_run := ts \<rparr> else r)
       (db_fetch_all nf cf s)
   \<and> seq (db_update_run mod_id new_status ts s) = seq s"
proof
  show "db_fetch_all nf cf (db_update_run mod_id new_status ts s) =
     map (\<lambda>r. if row_id r = mod_id then r\<lparr> status := new_status, last_run := ts \<rparr> else r)
       (db_fetch_all nf cf s)"
    unfolding db_update_run_def by (rule fetch_all_map_inv) simp_all
next
  show "seq (db_update_run mod_id new_status ts s) = seq s"
    by (simp add: db_update_run_def)
qed

subsection \<open>db_delete\<close>

lemma fetch_all_db_delete:
  "db_fetch_all nf cf (db_delete i s) = filter (\<lambda>r. row_id r \<noteq> i) (db_fetch_all nf cf s)"
  by (simp add: db_fetch_all_def db_delete_def table_scan_def filter_sort conj_commute)

lemma db_delete_absent: "i \<notin> row_id ` set (rows s) \<Longrightarrow> db_delete i s = s"
proof -
  assume "i \<notin> row_id ` set (rows s)"
  then have "filter (\<lambda>r. row_id r \<noteq> i) (rows s) = rows s"
    by (intro filter_True) auto
  then show ?thesis by (simp add: db_delete_def)
qed

text \<open>
  C7: for every store and every id, no listing fetched after \<open>db_delete\<close> holds a
  record with that id, whatever the filters; the listing is the one fetched before
  without the records of that id, so the other records are as they were; deleting an
  id that no row has leaves the store as it is, and so does deleting an id a second
  time. \<open>db_delete\<close> has no failing case.
\<close>

theorem C7_delete:
  "i \<notin> row_id ` set (db_fetch_all nf cf (db_delete i s)) \<and>
   db_fetch_all nf cf (db_delete i s) = filter (\<lambda>r. row_id r \<noteq> i) (db_fetch_all nf cf s) \<and>
   (i \<notin> row_id ` set (rows s) \<longrightarrow> db_delete i s = s) \<and>
   db_delete i (db_delete i s) = db_delete i s"
proof (intro conjI impI)
  show "i \<notin> row_id ` set (db_fetch_all nf cf (db_delete i s))"
    unfolding fetch_all_db_delete by auto
  show "db_fetch_all nf cf (db_delete i s) = filter (\<lambda>r. row_id r \<noteq> i) (db_fetch_all nf cf s)"
    by (rule fetch_all_db_delete)
  show "db_delete i s = s" if "i \<notin> row_id ` set (rows s)"
    using that by (rule db_delete_absent)
  show "db_delete i (db_delete i s) = db_delete i s"
    by (simp add: db_delete_def)
qed

text \<open>
  In \<open>scenario_store\<close> no mod has the id 7, and deleting it changes nothing; deleting
  the id 2 leaves "Jump Cycle" and "Rig Setup".
\<close>

theorem C7_delete_witness:
  "7 \<notin> row_id ` set (rows scenario_store) \<and>
   db_delete 7 scenario_store = scenario_store \<and>
   map name (db_fetch_all None None (db_delete 2 scenario_store))
     = [''Jump Cycle'', ''Rig Setup''] \<and>
   db_delete 2 (db_delete 2 scenario_store) = db_delete 2 scenario_store"
proof -
  have h: "7 \<notin> row_id ` set (rows scenario_store)" by code_simp
  have v: "map name (db_fetch_all None None (db_delete 2 scenario_store))
             = [''Jump Cycle'', ''Rig Setup'']"
    by code_simp
  from C7_delete[of 7 None None scenario_store] h
  have c: "db_delete 7 scenario_store = scenario_store" by blast
  from C7_delete[of 2 None None scenario_store]
  have d: "db_delete 2 (db_delete 2 scenario_store) = db_delete 2 scenario_store" by blast
  show ?thesis using h v c d by blast
qed

subsection \<open>Creating a mod without a name\<close>

lemma db_insert_nameless:
  assumes "get_name m = None \<or> get_name m = Some ''''"
  shows "length (rows (snd (db_insert m s))) = Suc (length (rows s))"
    and "name (last (rows (snd (db_insert m s)))) = ''''"
    and "row_id (last (rows (snd (db_insert m s)))) = fst (db_insert m s)"
  using assms by (auto simp: rows_db_insert dict_get_def)

lemma add_mod_blank_name: "py_strip (name_edit f) = '''' \<Longrightarrow> add_mod (Accepted f) s = Inr s"
  by (simp add: add_mod_def get_value_def)

lemma add_mod_named:
  "py_strip (name_edit f) \<noteq> '''' \<Longrightarrow>
   add_mod (Accepted f) s = Inr (snd (db_insert (get_value new_mod f) s))"
  by (simp add: add_mod_def get_value_def Let_def)

text \<open>
  C9, as the specification words it, fails: \<open>db_insert\<close> called on an empty store with
  a dict that has no name returns the id 1 and leaves a store with one row, whose name
  is empty.
\<close>

theorem C9_insert_without_name_counterexample:
  "db_insert ((named '''' '''')\<lparr> get_name := None \<rparr>) fresh_store
     = (1, \<lparr> rows = [plain_row 1 '''' ''''], seq = 1 \<rparr>) \<and>
   snd (db_insert ((named '''' '''')\<lparr> get_name := None \<rparr>) fresh_store) \<noteq> fresh_store"
  by code_simp

text \<open>
  C9 (amended): \<open>db_insert\<close> does not check the name. Called with a dict whose name is
  missing or empty it adds one row, with the empty name and the returned id. The check
  is made by the caller \<open>MainWindow.add_mod\<close> on the stripped text of the name field:
  when that is empty, \<open>db_insert\<close> is not called and the store stays as it is, with no
  error raised. With any other name \<open>add_mod\<close> inserts the mod, and a cancelled
  dialog changes nothing.
\<close>

theorem C9_name_checked_by_add_mod:
  "(get_name m = None \<or> get_name m = Some '''' \<longrightarrow>
      length (rows (snd (db_insert m s))) = Suc (length (rows s)) \<and>
      name (last (rows (snd (db_insert m s)))) = '''' \<and>
      row_id (last (rows (snd (db_insert m s)))) = fst (db_insert m s)) \<and>
   (py_strip (name_edit f) = '''' \<longrightarrow> add_mod (Accepted f) s = Inr s) \<and>
   (py_strip (name_edit f) \<noteq> '''' \<longrightarrow>
      add_mod (Accepted f) s = Inr (snd (db_insert (get_value new_mod f) s))) \<and>
   add_mod Rejected s = Inr s"
  using db_insert_nameless[of m s] add_mod_blank_name[of f s] add_mod_named[of f s]
  by (simp add: add_mod_def)

text \<open>
  On \<open>scenario_store\<close>: \<open>db_insert\<close> without a name adds a fourth row; the dialog
  accepted with a name of two spaces changes nothing; accepted with the name " Walk " it
  adds the mod "Walk".
\<close>

theorem C9_name_checked_by_add_mod_witness:
  "(get_name ((named '''' ''Rigging'')\<lparr> get_name := None \<rparr>) = None \<or>
    get_name ((named '''' ''Rigging'')\<lparr> get_name := None \<rparr>) = Some '''') \<and>
   length (rows (snd (db_insert ((named '''' ''Rigging'')\<lparr> get_name := None \<rparr>)
      scenario_store))) = 4 \<and>
   name (last (rows (snd (db_insert ((named '''' ''Rigging'')\<lparr> get_name := None \<rparr>)
      scenario_store)))) = '''' \<and>
   py_strip (name_edit blank_form) = '''' \<and>
   add_mod (Accepted blank_form) scenario_store = Inr scenario_store \<and>
   py_strip (name_edit (blank_form\<lparr> name_edit := '' Walk '' \<rparr>)) \<noteq> '''' \<and>
   add_mod (Accepted (blank_form\<lparr> name_edit := '' Walk '' \<rparr>)) scenario_store =
     Inr (snd (db_insert (get_value new_mod (blank_form\<lparr> name_edit := '' Walk '' \<rparr>))
       scenario_store)) \<and>
   map name (rows (snd (db_insert (get_value new_mod (blank_form\<lparr> name_edit := '' Walk '' \<rparr>))
      scenario_store)))
     = [''Jump Cycle'', ''Idle Loop'', ''Rig Setup'', ''Walk'']"
proof -
  let ?m = "(named '''' ''Rigging'')\<lparr> get_name := None \<rparr>"
  let ?f = "blank_form\<lparr> name_edit := '' Walk '' \<rparr>"
  have h1: "get_name ?m = None \<or> get_name ?m = Some ''''" by simp
  have h2: "py_strip (name_edit blank_form) = ''''" by code_simp
  have h3: "py_strip (name_edit ?f) \<noteq> ''''" by code_simp
  have n: "length (rows scenario_store) = 3" by code_simp
  have w: "map name (rows (snd (db_insert (get_value new_mod ?f) scenario_store)))
     = [''Jump Cycle'', ''Idle Loop'', ''Rig Setup'', ''Walk'']" by code_simp
  from C9_name_checked_by_add_mod[of ?m scenario_store blank_form] h1 h2 n
  have c: "length (rows (snd (db_insert ?m scenario_store))) = 4"
    "name (last (rows (snd (db_insert ?m scenario_store)))) = ''''"
    "add_mod (Accepted blank_form) scenario_store = Inr scenario_store"
    by simp_all
  from C9_name_checked_by_add_mod[of ?m scenario_store ?f] h3
  have d: "add_mod (Accepted ?f) scenario_store =
     Inr (snd (db_insert (get_value new_mod ?f) scenario_store))"
    by blast
  show ?thesis using h1 h2 h3 c d w by blast
qed

subsection \<open>The stripped fields\<close>

lemma rows_db_update:
  "rows (db_update mod_id m s) =
     map (\<lambda>r. if row_id r = mod_id
              then \<lparr> row_id = mod_id,
                     name = dict_get (get_name m) '''',
                     cover_path = dict_get (get_cover_path m) '''',
                     bat_path = dict_get (get_bat_path m) '''',
                     status = dict_get (get_status m) ''Ready'',
                     last_run = dict_get (get_last_run m) 0,
                     version = py_strip (dict_get (get_version m) ''''),
                     category = py_strip (dict_get (get_category m) ''''),
                     blend_path = py_strip (dict_get (get_blend_path m) ''''),
                     work_path = py_strip (dict_get (get_work_path m) '''') \<rparr>
              else r)
       (rows s)"
  by (simp add: db_update_def cong: if_cong)

lemma reachable_padded: "reachable padded_store"
  unfolding padded_store_def by (intro reachable.update reachable.insert reachable_fresh)

text \<open>
  C10: \<open>db_insert\<close> adds the row, and \<open>db_update\<close> rewrites the rows of the given id to
  the row, whose name, cover_path, bat_path, status and last_run are the supplied values
  as they are and whose version, category, blend_path and work_path are the supplied
  values stripped; a stripped text neither starts nor ends with whitespace; hence in
  every state the store can reach, no row carries whitespace at either end of one of
  these four fields.
\<close>

theorem C10_stripped_fields:
  "rows (snd (db_insert m s)) = rows s @
     [\<lparr> row_id = fst (db_insert m s),
        name = dict_get (get_name m) '''',
        cover_path = dict_get (get_cover_path m) '''',
        bat_path = dict_get (get_bat_path m) '''',
        status = dict_get (get_status m) ''Ready'',
        last_run = dict_get (get_last_run m) 0,
        version = py_strip (dict_get (get_version m) ''''),
        category = py_strip (dict_get (get_category m) ''''),
        blend_path = py_strip (dict_get (get_blend_path m) ''''),
        work_path = py_strip (dict_get (get_work_path m) '''') \<rparr>] \<and>
   rows (db_update mod_id m s) =
     map (\<lambda>r. if row_id r = mod_id
              then \<lparr> row_id = mod_id,
                     name = dict_get (get_name m) '''',
                     cover_path = dict_get (get_cover_path m) '''',
                     bat_path = dict_get (get_bat_path m) '''',
                     status = dict_get (get_status m) ''Ready'',
                     last_run = dict_get (get_last_run m) 0,
                     version = py_strip (dict_get (get_version m) ''''),
                     category = py_strip (dict_get (get_category m) ''''),
                     blend_path = py_strip (dict_get (get_blend_path m) ''''),
                     work_path = py_strip (dict_get (get_work_path m) '''') \<rparr>
              else r)
       (rows s) \<and>
   no_outer_space (py_strip t) \<and>
   (reachable s \<longrightarrow> list_all stripped_row (rows s))"
  using rows_db_insert[of m s] rows_db_update[of mod_id m s] no_outer_space_py_strip[of t]
    reachable_stripped[of s]
  by blast

text \<open>
  A mod created with the category " Anim " and then edited to the version " 2.0 " and
  the category "  Rig  " is stored with the version "2.0" and the category "Rig".
\<close>

theorem C10_stripped_fields_witness:
  "reachable padded_store \<and>
   list_all stripped_row (rows padded_store) \<and>
   map category (rows (snd (db_insert (named ''A'' '' Anim '') fresh_store))) = [''Anim''] \<and>
   rows padded_store = [(plain_row 1 ''A'' ''Rig'')\<lparr> version := ''2.0'' \<rparr>]"
proof -
  have v: "map category (rows (snd (db_insert (named ''A'' '' Anim '') fresh_store))) = [''Anim'']"
    "rows padded_store = [(plain_row 1 ''A'' ''Rig'')\<lparr> version := ''2.0'' \<rparr>]"
    by code_simp+
  from C10_stripped_fields[of _ padded_store] reachable_padded
  have "list_all stripped_row (rows padded_store)" by blast
  with reachable_padded v show ?thesis by blast
qed

section \<open>Properties of the schema migration\<close>

lemma migrate_column_present: "column_exists t col \<Longrightarrow> migrate_column col t = Inr t"
  by (simp add: migrate_column_def)

lemma migrate_column_adds: "migrate_column col t = Inr t' \<Longrightarrow> column_exists t' col"
  by (auto simp: migrate_column_def add_column_def column_exists_def split: if_splits)

lemma migrate_column_keeps:
  "migrate_column col t = Inr t' \<Longrightarrow> column_exists t d \<Longrightarrow> column_exists t' d"
  by (auto simp: migrate_column_def add_column_def column_exists_def split: if_splits)

lemma create_table_Some: "create_table_if_not_exists (Some t) = t"
  by (simp add: create_table_if_not_exists_def)

lemma db_init_Some:
  "db_init (Some t) =
     (case migrate_column ''version'' t of
        Inl e \<Rightarrow> (t, Some e)
      | Inr t1 \<Rightarrow>
          (case migrate_column ''category'' t1 of
             Inl e \<Rightarrow> (t1, Some e)
           | Inr t2 \<Rightarrow>
               (case migrate_column ''blend_path'' t2 of
                  Inl e \<Rightarrow> (t2, Some e)
                | Inr t3 \<Rightarrow>
                    (case migrate_column ''work_path'' t3 of
                       Inl e \<Rightarrow> (t3, Some e)
                     | Inr t4 \<Rightarrow> (t4, None)))))"
  by (simp add: db_init_def create_table_Some)

lemma db_init_create: "db_init db = db_init (Some (create_table_if_not_exists db))"
  by (simp add: db_init_def create_table_Some)

text \<open>
  A second run finds every column the first one added and stops where the first one
  stopped.
\<close>

lemma db_init_Some_idem: "db_init (Some (fst (db_init (Some t)))) = db_init (Some t)"
proof (cases "migrate_column ''version'' t")
  case (Inl e)
  then show ?thesis by (simp add: db_init_Some)
next
  case v: (Inr t1)
  note e1 = migrate_column_adds[OF v]
  show ?thesis
  proof (cases "migrate_column ''category'' t1")
    case (Inl e)
    with v e1 show ?thesis by (simp add: db_init_Some migrate_column_present)
  next
    case c: (Inr t2)
    note e2 = migrate_column_keeps[OF c e1] migrate_column_adds[OF c]
    show ?thesis
    proof (cases "migrate_column ''blend_path'' t2")
      case (Inl e)
      with v c e2 show ?thesis by (simp add: db_init_Some migrate_column_present)
    next
      case b: (Inr t3)
      note e3 = e2[THEN migrate_column_keeps[OF b]] migrate_column_adds[OF b]
      show ?thesis
      proof (cases "migrate_column ''work_path'' t3")
        case (Inl e)
        with v c b e3 show ?thesis by (simp add: db_init_Some migrate_column_present)
      next
        case w: (Inr t4)
        note e4 = e3[THEN migrate_column_keeps[OF w]] migrate_column_adds[OF w]
        from v c b w e4 show ?thesis by (simp add: db_init_Some migrate_column_present)
      qed
    qed
  qed
qed

lemma db_init_idem: "db_init (Some (fst (db_init db))) = db_init db"
  using db_init_Some_idem[of "create_table_if_not_exists db"] db_init_create[of db] by simp

lemma lower_new_columns:
  "sqlite_lower ''version'' = ''version''" "sqlite_lower ''category'' = ''category''"
  "sqlite_lower ''blend_path'' = ''blend_path''" "sqlite_lower ''work_path'' = ''work_path''"
  by code_simp+

lemma lower_absent_imp_absent:
  assumes "sqlite_lower col \<notin> set (map sqlite_lower (columns t))"
  shows "col \<notin> set (columns t)"
  using assms by auto

lemma add_new_column:
  assumes "sqlite_lower col \<notin> set (map sqlite_lower (columns t))"
  shows "migrate_column col t =
    Inr \<lparr> columns = columns t @ [col], cells = map (\<lambda>r. r(col \<mapsto> VText '''')) (cells t) \<rparr>"
  using assms lower_absent_imp_absent[OF assms]
  by (simp add: migrate_column_def add_column_def column_exists_def)

lemma db_init_legacy:
  assumes "''version'' \<notin> set (map sqlite_lower (columns t))"
    "''category'' \<notin> set (map sqlite_lower (columns t))"
    "''blend_path'' \<notin> set (map sqlite_lower (columns t))"
    "''work_path'' \<notin> set (map sqlite_lower (columns t))"
  shows "db_init (Some t) =
    (\<lparr> columns = columns t @ [''version'', ''category'', ''blend_path'', ''work_path''],
       cells = map (\<lambda>r. r(''version'' \<mapsto> VText '''', ''category'' \<mapsto> VText '''',
                           ''blend_path'' \<mapsto> VText '''', ''work_path'' \<mapsto> VText ''''))
                 (cells t) \<rparr>, None)"
proof -
  let ?t1 = "\<lparr> columns = columns t @ [''version''],
       cells = map (\<lambda>r. r(''version'' \<mapsto> VText '''')) (cells t) \<rparr>"
  let ?t2 = "\<lparr> columns = columns ?t1 @ [''category''],
       cells = map (\<lambda>r. r(''category'' \<mapsto> VText '''')) (cells ?t1) \<rparr>"
  let ?t3 = "\<lparr> columns = columns ?t2 @ [''blend_path''],
       cells = map (\<lambda>r. r(''blend_path'' \<mapsto> VText '''')) (cells ?t2) \<rparr>"
  let ?t4 = "\<lparr> columns = columns ?t3 @ [''work_path''],
       cells = map (\<lambda>r. r(''work_path'' \<mapsto> VText '''')) (cells ?t3) \<rparr>"
  have 1: "migrate_column ''version'' t = Inr ?t1"
    by (rule add_new_column) (use assms(1) in \<open>simp add: lower_new_columns\<close>)
  have 2: "migrate_column ''category'' ?t1 = Inr ?t2"
    by (rule add_new_column) (use assms(2) in \<open>simp add: lower_new_columns\<close>)
  have 3: "migrate_column ''blend_path'' ?t2 = Inr ?t3"
    by (rule add_new_column) (use assms(3) in \<open>simp add: lower_new_columns\<close>)
  have 4: "migrate_column ''work_path'' ?t3 = Inr ?t4"
    by (rule add_new_column) (use assms(4) in \<open>simp add: lower_new_columns\<close>)
  have "db_init (Some t) = (?t4, None)"
    unfolding db_init_Some by (simp only: 1 2 3 4 sum.case)
  then show ?thesis by (simp add: comp_def)
qed

text \<open>On a file without the table, \<open>db_init\<close> creates it with all ten columns.\<close>

lemma db_init_fresh:
  "db_init None =
     (\<lparr> columns = [''id'', ''name'', ''cover_path'', ''bat_path'', ''status'', ''last_run'',
                   ''version'', ''category'', ''blend_path'', ''work_path''],
        cells = [] \<rparr>, None)"
proof -
  have "map sqlite_lower [''id'', ''name'', ''cover_path'', ''bat_path'', ''status'', ''last_run'']
        = [''id'', ''name'', ''cover_path'', ''bat_path'', ''status'', ''last_run'']"
    by code_simp
  then show ?thesis
    by (simp add: db_init_def create_table_if_not_exists_def migrate_column_def add_column_def
        column_exists_def lower_new_columns)
qed

lemma legacy_columns_lower:
  "map sqlite_lower (columns legacy_table)
     = [''id'', ''name'', ''cover_path'', ''bat_path'', ''status'', ''last_run'']"
  unfolding legacy_table_def table.simps by code_simp

text \<open>
  C8: a second run of \<open>db_init\<close> right after a first one leaves the table (its columns
  and its rows) as the first run left it, and ends as the first run ended; and run on a
  table that has none of the columns version, category, blend_path and work_path (in
  any letter case), \<open>db_init\<close> raises nothing, appends the four columns, makes every row
  read the empty text in each of them, and leaves the id, name, status and last_run of
  every row as they were.
\<close>

theorem C8_migration:
  "db_init (Some (fst (db_init db))) = db_init db \<and>
   (''version'' \<notin> set (map sqlite_lower (columns t)) \<and>
    ''category'' \<notin> set (map sqlite_lower (columns t)) \<and>
    ''blend_path'' \<notin> set (map sqlite_lower (columns t)) \<and>
    ''work_path'' \<notin> set (map sqlite_lower (columns t)) \<longrightarrow>
      snd (db_init (Some t)) = None \<and>
      columns (fst (db_init (Some t)))
        = columns t @ [''version'', ''category'', ''blend_path'', ''work_path''] \<and>
      map (\<lambda>r. r ''version'') (cells (fst (db_init (Some t))))
        = map (\<lambda>r. Some (VText '''')) (cells t) \<and>
      map (\<lambda>r. r ''category'') (cells (fst (db_init (Some t))))
        = map (\<lambda>r. Some (VText '''')) (cells t) \<and>
      map (\<lambda>r. r ''blend_path'') (cells (fst (db_init (Some t))))
        = map (\<lambda>r. Some (VText '''')) (cells t) \<and>
      map (\<lambda>r. r ''work_path'') (cells (fst (db_init (Some t))))
        = map (\<lambda>r. Some (VText '''')) (cells t) \<and>
      map (\<lambda>r. r ''id'') (cells (fst (db_init (Some t)))) = map (\<lambda>r. r ''id'') (cells t) \<and>
      map (\<lambda>r. r ''name'') (cells (fst (db_init (Some t)))) = map (\<lambda>r. r ''name'') (cells t) \<and>
      map (\<lambda>r. r ''status'') (cells (fst (db_init (Some t))))
        = map (\<lambda>r. r ''status'') (cells t) \<and>
      map (\<lambda>r. r ''last_run'') (cells (fst (db_init (Some t))))
        = map (\<lambda>r. r ''last_run'') (cells t))"
proof (intro conjI impI)
  show "db_init (Some (fst (db_init db))) = db_init db" by (rule db_init_idem)
next
  assume a: "''version'' \<notin> set (map sqlite_lower (columns t)) \<and>
    ''category'' \<notin> set (map sqlite_lower (columns t)) \<and>
    ''blend_path'' \<notin> set (map sqlite_lower (columns t)) \<and>
    ''work_path'' \<notin> set (map sqlite_lower (columns t))"
  then have eq: "db_init (Some t) =
    (\<lparr> columns = columns t @ [''version'', ''category'', ''blend_path'', ''work_path''],
       cells = map (\<lambda>r. r(''version'' \<mapsto> VText '''', ''category'' \<mapsto> VText '''',
                           ''blend_path'' \<mapsto> VText '''', ''work_path'' \<mapsto> VText ''''))
                 (cells t) \<rparr>, None)"
    by (intro db_init_legacy) simp_all
  show "snd (db_init (Some t)) = None" by (simp add: eq)
  show "columns (fst (db_init (Some t)))
        = columns t @ [''version'', ''category'', ''blend_path'', ''work_path'']"
    by (simp add: eq)
  show "map (\<lambda>r. r ''version'') (cells (fst (db_init (Some t))))
        = map (\<lambda>r. Some (VText '''')) (cells t)" by (simp add: eq comp_def)
  show "map (\<lambda>r. r ''category'') (cells (fst (db_init (Some t))))
        = map (\<lambda>r. Some (VText '''')) (cells t)" by (simp add: eq comp_def)
  show "map (\<lambda>r. r ''blend_path'') (cells (fst (db_init (Some t))))
        = map (\<lambda>r. Some (VText '''')) (cells t)" by (simp add: eq comp_def)
  show "map (\<lambda>r. r ''work_path'') (cells (fst (db_init (Some t))))
        = map (\<lambda>r. Some (VText '''')) (cells t)" by (simp add: eq comp_def)
  show "map (\<lambda>r. r ''id'') (cells (fst (db_init (Some t)))) = map (\<lambda>r. r ''id'') (cells t)"
    by (simp add: eq comp_def)
  show "map (\<lambda>r. r ''name'') (cells (fst (db_init (Some t)))) = map (\<lambda>r. r ''name'') (cells t)"
    by (simp add: eq comp_def)
  show "map (\<lambda>r. r ''status'') (cells (fst (db_init (Some t))))
        = map (\<lambda>r. r ''status'') (cells t)" by (simp add: eq comp_def)
  show "map (\<lambda>r. r ''last_run'') (cells (fst (db_init (Some t))))
        = map (\<lambda>r. r ''last_run'') (cells t)" by (simp add: eq comp_def)
qed

text \<open>
  The table of the first schema with its one mod: the migration ends without an error,
  the table has the ten columns, the mod keeps its name and last_run and reads the
  empty text as its category; a second run changes nothing.
\<close>

theorem C8_migration_witness:
  "''version'' \<notin> set (map sqlite_lower (columns legacy_table)) \<and>
   ''category'' \<notin> set (map sqlite_lower (columns legacy_table)) \<and>
   ''blend_path'' \<notin> set (map sqlite_lower (columns legacy_table)) \<and>
   ''work_path'' \<notin> set (map sqlite_lower (columns legacy_table)) \<and>
   db_init (Some (fst (db_init (Some legacy_table)))) = db_init (Some legacy_table) \<and>
   snd (db_init (Some legacy_table)) = None \<and>
   columns (fst (db_init (Some legacy_table)))
     = [''id'', ''name'', ''cover_path'', ''bat_path'', ''status'', ''last_run'',
        ''version'', ''category'', ''blend_path'', ''work_path''] \<and>
   map (\<lambda>r. r ''category'') (cells (fst (db_init (Some legacy_table)))) = [Some (VText '''')] \<and>
   map (\<lambda>r. r ''name'') (cells (fst (db_init (Some legacy_table))))
     = [Some (VText ''Old Mod'')] \<and>
   map (\<lambda>r. r ''last_run'') (cells (fst (db_init (Some legacy_table))))
     = [Some (VInt 1700000000)]"
proof -
  have h: "''version'' \<notin> set (map sqlite_lower (columns legacy_table)) \<and>
   ''category'' \<notin> set (map sqlite_lower (columns legacy_table)) \<and>
   ''blend_path'' \<notin> set (map sqlite_lower (columns legacy_table)) \<and>
   ''work_path'' \<notin> set (map sqlite_lower (columns legacy_table))"
    unfolding legacy_columns_lower by simp
  note c = C8_migration[of "Some legacy_table" legacy_table, THEN conjunct2, rule_format, OF h]
  have i: "db_init (Some (fst (db_init (Some legacy_table)))) = db_init (Some legacy_table)"
    using C8_migration[of "Some legacy_table" legacy_table] by blast
  have v: "columns legacy_table
             = [''id'', ''name'', ''cover_path'', ''bat_path'', ''status'', ''last_run'']"
     "map (\<lambda>r. Some (VText '''')) (cells legacy_table) = [Some (VText '''')]"
     "map (\<lambda>r. r ''name'') (cells legacy_table) = [Some (VText ''Old Mod'')]"
     "map (\<lambda>r. r ''last_run'') (cells legacy_table) = [Some (VInt 1700000000)]"
    by (simp_all add: legacy_table_def)
  show ?thesis using h i c v by simp
qed

end
